theory Spec2Isabelle
  imports Main "HOL-Library.Char_ord" "HOL-Library.List_Lexorder"
begin

section \<open>The health-check engine of ipahealthcheck/core/main.py\<close>

text \<open>
  The engine runs the discovered plugins in two phases (service probes first, then the
  checks that depend on services), collects their results in order and hands them to a
  renderer. The embedding below follows \<^verbatim>\<open>main.py\<close> function by function.
  What a plugin's \<^verbatim>\<open>check()\<close> does is an input of the engine: it either returns
  some Python value or raises an exception. Both handlers of the file are
  \<^verbatim>\<open>except Exception\<close>: they catch an exception whose class derives from
  \<^verbatim>\<open>Exception\<close>, and any other (\<^verbatim>\<open>SystemExit\<close>, \<^verbatim>\<open>KeyboardInterrupt\<close>)
  passes through them and leaves the function. A \<^verbatim>\<open>check()\<close> that never returns
  and the debug log lines are not part of the model.
\<close>

subsection \<open>Data model\<close>

text \<open>
  Modelled from the spec: the modules \<^verbatim>\<open>ipahealthcheck.core.constants\<close> and
  \<^verbatim>\<open>ipahealthcheck.core.plugin\<close> are imported by \<^verbatim>\<open>main.py\<close> but are not
  among the sources. Severities are SUCCESS, ERROR, CRITICAL and further domain
  severities. A Result carries a plugin reference, a severity, an optional message and
  an optional fault description. A Results is an ordered sequence of Result that
  supports appending one Result and extending by another Results; it has no severity
  of its own.
\<close>

datatype severity_level = SUCCESS | ERROR | CRITICAL | Domain nat

record result =
  plugin_ref :: nat
  severity :: severity_level
  kw_msg :: "string option"
  kw_exception :: "string option"

text \<open>
  The Python values a \<^verbatim>\<open>check()\<close> can return, by what \<^verbatim>\<open>type(result)\<close> and
  \<^verbatim>\<open>isinstance\<close> tell about them: an object whose type is exactly Result, one whose
  type is exactly Results, an instance of a proper subclass of either, \<^verbatim>\<open>None\<close>,
  or any other object (described by its \<^verbatim>\<open>repr\<close>).
\<close>

datatype pyval =
    PResult result
  | PResults "result list"
  | PResultSub result
  | PResultsSub "result list"
  | PNone
  | POther string

text \<open>
  An exception object: whether its class derives from \<^verbatim>\<open>Exception\<close>, the name of
  its class and its \<^verbatim>\<open>str()\<close>.
\<close>

datatype pyexc = PyExc (is_Exception: bool) (exc_class: string) (exc_str: string)

datatype outcome = Returns pyval | Raises pyexc

text \<open>
  A plugin object: \<open>oid\<close> is the object's identity (what a Result built from the plugin
  refers to), \<open>source_name\<close> is \<^verbatim>\<open>plugin.__module__\<close>, \<open>class_name\<close> is
  \<^verbatim>\<open>plugin.__class__.__name__\<close>, \<open>service_name\<close> is \<open>Some n\<close> exactly when
  \<^verbatim>\<open>isinstance(plugin, ServiceCheck)\<close> holds, and \<open>check\<close> is what one call of
  \<^verbatim>\<open>plugin.check()\<close> does.
\<close>

record plugin =
  oid :: nat
  source_name :: string
  class_name :: string
  service_name :: "string option"
  requires :: "string list"
  check :: outcome

text \<open>
  The renderer selected for the run: \<open>render\<close> gives, for the argument it is called
  with, the exception it raises, or \<open>None\<close> when it returns.
\<close>

record renderer =
  output_only :: bool
  render :: "result list option \<Rightarrow> pyexc option"

text \<open>
  The effects of a run that the claims speak of: the plugins whose \<^verbatim>\<open>check()\<close>
  was invoked, the arguments \<^verbatim>\<open>render\<close> was called with, and the lines written
  with \<^verbatim>\<open>logger.error\<close>, each in order of occurrence. An exception that
  propagates leaves the effects that happened before it in place.
\<close>

record world =
  calls :: "plugin list"
  rendered :: "result list option list"
  errors :: "string list"

text \<open>
  The value of the variable \<^verbatim>\<open>result\<close> after \<^verbatim>\<open>run_plugin\<close>, or after the
  requirement gate of \<^verbatim>\<open>run_plugins\<close>: its type is exactly Result or exactly Results.
\<close>

datatype checked = IsResult result | IsResults "result list"

definition Result :: "plugin \<Rightarrow> severity_level \<Rightarrow> string option \<Rightarrow> string option \<Rightarrow> result" where
  "Result plugin sev m e =
     \<lparr>plugin_ref = oid plugin, severity = sev, kw_msg = m, kw_exception = e\<rparr>"

text \<open>
  Modelled from the spec: the classes Result and Results are not among the sources; the
  spec gives a Result a severity and a Results only its sequence of Result.
  Attribute access \<^verbatim>\<open>result.severity\<close> (line 79): a Result has the attribute; a Results
  does not, so Python raises AttributeError (its message is abbreviated here).
\<close>

definition attribute_error :: pyexc where
  "attribute_error =
     PyExc True ''AttributeError'' ''Results object has no attribute severity''"

fun get_severity :: "checked \<Rightarrow> pyexc + severity_level" where
  "get_severity (IsResult r) = Inr (severity r)"
| "get_severity (IsResults rs) = Inl attribute_error"

text \<open>
  Lines 82-85 and 114-117: \<^verbatim>\<open>results.add(result)\<close> for a Result,
  \<^verbatim>\<open>results.extend(result)\<close> for a Results.
\<close>

fun add_or_extend :: "result list \<Rightarrow> checked \<Rightarrow> result list" where
  "add_or_extend results (IsResult r) = results @ [r]"
| "add_or_extend results (IsResults rs) = results @ rs"

text \<open>Python's \<^verbatim>\<open>sep.join(xs)\<close>.\<close>

fun str_join :: "string \<Rightarrow> string list \<Rightarrow> string" where
  "str_join sep [] = []"
| "str_join sep [x] = x"
| "str_join sep (x # y # zs) = x @ sep @ str_join sep (y # zs)"

subsection \<open>run_plugin (lines 34-44)\<close>

text \<open>
  The function returns a value (\<open>Inr\<close>) or is left by an exception (\<open>Inl\<close>): line 40
  catches what derives from \<^verbatim>\<open>Exception\<close> only.
\<close>

definition run_plugin ::
  "plugin \<Rightarrow> string set \<Rightarrow> world \<Rightarrow> (pyexc + checked) \<times> world" where
  "run_plugin plugin available w =
     (let w' = w\<lparr>calls := calls w @ [plugin]\<rparr> in
      case check plugin of
        Returns v \<Rightarrow>
          (case v of
             PResult r \<Rightarrow> (Inr (IsResult r), w')
           | PResults rs \<Rightarrow> (Inr (IsResults rs), w')
           | _ \<Rightarrow> (Inr (IsResult (Result plugin SUCCESS None None)), w'))
      | Raises e \<Rightarrow>
          if is_Exception e
          then (Inr (IsResult (Result plugin CRITICAL None (Some (exc_str e)))), w')
          else (Inl e, w'))"

subsection \<open>source_or_check_matches (lines 47-57)\<close>

text \<open>
  The source is compared when it \<^verbatim>\<open>is not None\<close>; the check is compared when it is
  truthy, that is neither \<^verbatim>\<open>None\<close> nor the empty string.
\<close>

definition source_or_check_matches :: "plugin \<Rightarrow> string option \<Rightarrow> string option \<Rightarrow> bool" where
  "source_or_check_matches plugin source chk =
     (if (case source of None \<Rightarrow> False | Some s \<Rightarrow> source_name plugin \<noteq> s) then False
      else if (case chk of None \<Rightarrow> False | Some c \<Rightarrow> c \<noteq> [] \<and> class_name plugin \<noteq> c) then False
      else True)"

subsection \<open>run_service_plugins (lines 60-87)\<close>

text \<open>
  The \<^verbatim>\<open>for\<close> loop with its two accumulators \<^verbatim>\<open>results\<close> and \<^verbatim>\<open>available\<close>.
  \<^verbatim>\<open>run_plugin(plugin)\<close> is called with the default \<^verbatim>\<open>available=()\<close>.
\<close>

fun run_service_plugins_loop ::
  "plugin list \<Rightarrow> string option \<Rightarrow> string option \<Rightarrow> result list \<Rightarrow> string list \<Rightarrow> world
     \<Rightarrow> (pyexc + result list \<times> string list) \<times> world" where
  "run_service_plugins_loop [] source chk results available w = (Inr (results, available), w)"
| "run_service_plugins_loop (plugin # plugins) source chk results available w =
     (case service_name plugin of
        None \<Rightarrow> run_service_plugins_loop plugins source chk results available w
      | Some name \<Rightarrow>
          if \<not> source_or_check_matches plugin source chk
          then run_service_plugins_loop plugins source chk results available w
          else
            (case run_plugin plugin {} w of
               (Inl e, w') \<Rightarrow> (Inl e, w')
             | (Inr result, w') \<Rightarrow>
                 (case get_severity result of
                    Inl e \<Rightarrow> (Inl e, w')
                  | Inr sev \<Rightarrow>
                      run_service_plugins_loop plugins source chk
                        (add_or_extend results result)
                        (if sev = SUCCESS then available @ [name] else available) w')))"

definition run_service_plugins ::
  "plugin list \<Rightarrow> string option \<Rightarrow> string option \<Rightarrow> world
     \<Rightarrow> (pyexc + result list \<times> string set) \<times> world" where
  "run_service_plugins plugins source chk w =
     (case run_service_plugins_loop plugins source chk [] [] w of
        (Inl e, w') \<Rightarrow> (Inl e, w')
      | (Inr (results, available), w') \<Rightarrow> (Inr (results, set available), w'))"

subsection \<open>run_plugins (lines 90-119)\<close>

text \<open>
  \<^verbatim>\<open>', '.join(set(plugin.requires) - available)\<close> iterates over a set, in an order
  that Python does not specify: the iteration order is a parameter \<open>it\<close> of the model,
  and \<open>iter_ok\<close> says what every such order satisfies.
\<close>

type_synonym set_iter = "string set \<Rightarrow> string list"

definition iter_ok :: "set_iter \<Rightarrow> bool" where
  "iter_ok it \<longleftrightarrow> (\<forall>S. finite S \<longrightarrow> set (it S) = S \<and> distinct (it S))"

fun run_plugins_loop ::
  "set_iter \<Rightarrow> plugin list \<Rightarrow> string set \<Rightarrow> string option \<Rightarrow> string option \<Rightarrow> result list
     \<Rightarrow> world \<Rightarrow> (pyexc + result list) \<times> world" where
  "run_plugins_loop it [] available source chk results w = (Inr results, w)"
| "run_plugins_loop it (plugin # plugins) available source chk results w =
     (if service_name plugin \<noteq> None
      then run_plugins_loop it plugins available source chk results w
      else if \<not> source_or_check_matches plugin source chk
      then run_plugins_loop it plugins available source chk results w
      else
        (case (if \<not> set (requires plugin) \<subseteq> available
               then (Inr (IsResult (Result plugin ERROR
                       (Some (str_join '', '' (it (set (requires plugin) - available))
                              @ '' service(s) not running'')) None)), w)
               else run_plugin plugin available w) of
           (Inl e, w') \<Rightarrow> (Inl e, w')
         | (Inr result, w') \<Rightarrow>
             run_plugins_loop it plugins available source chk (add_or_extend results result) w'))"

definition run_plugins ::
  "set_iter \<Rightarrow> plugin list \<Rightarrow> string set \<Rightarrow> string option \<Rightarrow> string option \<Rightarrow> world
     \<Rightarrow> (pyexc + result list) \<times> world" where
  "run_plugins it plugins available source chk w =
     run_plugins_loop it plugins available source chk [] w"

subsection \<open>main, from the renderer on (lines 181-192)\<close>

text \<open>
  Lines 189-192: \<^verbatim>\<open>output.render(results)\<close> inside \<^verbatim>\<open>try\<close>, with the handler
  that writes one line with \<^verbatim>\<open>logger.error\<close> for what derives from
  \<^verbatim>\<open>Exception\<close>; any other exception leaves the block (\<open>Some e\<close>).
\<close>

definition render_guarded ::
  "renderer \<Rightarrow> result list option \<Rightarrow> world \<Rightarrow> pyexc option \<times> world" where
  "render_guarded output results w =
     (let w' = w\<lparr>rendered := rendered w @ [results]\<rparr> in
      case render output results of
        None \<Rightarrow> (None, w')
      | Some e \<Rightarrow>
          if is_Exception e
          then (None,
                w'\<lparr>errors := errors w' @ [''Output raised '' @ exc_class e @ '': '' @ exc_str e]\<rparr>)
          else (Some e, w'))"

text \<open>
  The plugin list, the two filter options and the renderer are what lines 156-179 have
  produced. The run either ends normally (\<open>None\<close>) or with an exception that leaves
  \<^verbatim>\<open>main\<close>.
\<close>

definition main ::
  "set_iter \<Rightarrow> plugin list \<Rightarrow> string option \<Rightarrow> string option \<Rightarrow> renderer \<Rightarrow> world
     \<Rightarrow> pyexc option \<times> world" where
  "main it plugins source chk output w =
     (if \<not> output_only output then
        (case run_service_plugins plugins source chk w of
           (Inl e, w1) \<Rightarrow> (Some e, w1)
         | (Inr (results, available), w1) \<Rightarrow>
             (case run_plugins it plugins available source chk w1 of
                (Inl e, w2) \<Rightarrow> (Some e, w2)
              | (Inr results2, w2) \<Rightarrow> render_guarded output (Some (results @ results2)) w2))
      else render_guarded output None w)"

subsection \<open>What the two phases are to compute\<close>

text \<open>
  The statements below compare the loops of the source with these descriptions of their
  results. \<open>outcome_of\<close> is what \<^verbatim>\<open>run_plugin\<close> yields for a plugin (it does not depend
  on the state) and \<open>plugin_results\<close> the Results it contributes; \<open>service_selected\<close> and
  \<open>plugin_selected\<close> say which plugins phase 1 and phase 2 take; \<open>spec_gate\<close> is the
  contribution of one plugin to phase 2; the \<open>spec_\<close> lists are the contributions of the
  selected plugins in discovery order. A phase returns when none of the plugins it runs
  lets an exception escape and, in phase 1, none yields a Results.
\<close>

definition outcome_of :: "plugin \<Rightarrow> pyexc + checked" where
  "outcome_of p = fst (run_plugin p {} \<lparr>calls = [], rendered = [], errors = []\<rparr>)"

fun results_of :: "checked \<Rightarrow> result list" where
  "results_of (IsResult r) = [r]"
| "results_of (IsResults rs) = rs"

definition plugin_results :: "plugin \<Rightarrow> result list" where
  "plugin_results p = (case outcome_of p of Inl e \<Rightarrow> [] | Inr c \<Rightarrow> results_of c)"

definition service_selected :: "string option \<Rightarrow> string option \<Rightarrow> plugin \<Rightarrow> bool" where
  "service_selected source chk p \<longleftrightarrow> service_name p \<noteq> None \<and> source_or_check_matches p source chk"

definition plugin_selected :: "string option \<Rightarrow> string option \<Rightarrow> plugin \<Rightarrow> bool" where
  "plugin_selected source chk p \<longleftrightarrow> service_name p = None \<and> source_or_check_matches p source chk"

definition yields_results :: "plugin \<Rightarrow> bool" where
  "yields_results p \<longleftrightarrow> (case check p of Returns (PResults rs) \<Rightarrow> True | _ \<Rightarrow> False)"

definition escapes :: "plugin \<Rightarrow> bool" where
  "escapes p \<longleftrightarrow> (case check p of Raises e \<Rightarrow> \<not> is_Exception e | Returns v \<Rightarrow> False)"

definition succeeds :: "plugin \<Rightarrow> bool" where
  "succeeds p \<longleftrightarrow>
     (case outcome_of p of Inr (IsResult r) \<Rightarrow> severity r = SUCCESS | _ \<Rightarrow> False)"

definition phase1_returns :: "string option \<Rightarrow> string option \<Rightarrow> plugin list \<Rightarrow> bool" where
  "phase1_returns source chk ps \<longleftrightarrow>
     list_all (\<lambda>p. service_selected source chk p \<longrightarrow> \<not> yields_results p \<and> \<not> escapes p) ps"

definition spec_phase1_results :: "string option \<Rightarrow> string option \<Rightarrow> plugin list \<Rightarrow> result list" where
  "spec_phase1_results source chk ps =
     concat (map plugin_results (filter (service_selected source chk) ps))"

definition spec_available :: "string option \<Rightarrow> string option \<Rightarrow> plugin list \<Rightarrow> string list" where
  "spec_available source chk ps =
     concat (map (\<lambda>p. case service_name p of None \<Rightarrow> [] | Some n \<Rightarrow> [n])
       (filter (\<lambda>p. service_selected source chk p \<and> succeeds p) ps))"

definition spec_gate :: "set_iter \<Rightarrow> string set \<Rightarrow> plugin \<Rightarrow> result list" where
  "spec_gate it available p =
     (if set (requires p) - available \<noteq> {}
      then [\<lparr>plugin_ref = oid p, severity = ERROR,
              kw_msg = Some (str_join '', '' (it (set (requires p) - available))
                             @ '' service(s) not running''),
              kw_exception = None\<rparr>]
      else plugin_results p)"

definition spec_phase2_results ::
  "set_iter \<Rightarrow> string set \<Rightarrow> string option \<Rightarrow> string option \<Rightarrow> plugin list \<Rightarrow> result list" where
  "spec_phase2_results it available source chk ps =
     concat (map (spec_gate it available) (filter (plugin_selected source chk) ps))"

definition phase2_runs :: "string set \<Rightarrow> string option \<Rightarrow> string option \<Rightarrow> plugin \<Rightarrow> bool" where
  "phase2_runs available source chk p \<longleftrightarrow>
     plugin_selected source chk p \<and> set (requires p) - available = {}"

definition phase2_returns ::
  "string set \<Rightarrow> string option \<Rightarrow> string option \<Rightarrow> plugin list \<Rightarrow> bool" where
  "phase2_returns available source chk ps \<longleftrightarrow>
     list_all (\<lambda>p. phase2_runs available source chk p \<longrightarrow> \<not> escapes p) ps"

definition render_escape :: "renderer \<Rightarrow> result list option \<Rightarrow> pyexc option" where
  "render_escape output results =
     (case render output results of
        None \<Rightarrow> None
      | Some e \<Rightarrow> if is_Exception e then None else Some e)"

text \<open>
  Reading a message back: \<open>split_names [] s\<close> cuts \<open>s\<close> at every comma followed by a
  space and gives the pieces in order. It is defined without reference to
  \<open>str_join\<close>, to say which names a message lists.
\<close>

fun split_names :: "string \<Rightarrow> string \<Rightarrow> string list" where
  "split_names acc [] = [acc]"
| "split_names acc (c # cs) =
     (if c = CHR '','' \<and> (case cs of [] \<Rightarrow> False | d # ds \<Rightarrow> d = CHR '' '')
      then acc # split_names [] (tl cs)
      else split_names (acc @ [c]) cs)"

subsection \<open>Example objects\<close>

text \<open>
  The plugins of the end-to-end example: two service probes, of which \<open>svc_a\<close> reports
  SUCCESS and \<open>svc_b\<close> CRITICAL, and a check that requires both services. Further a
  check that requires three services, a service probe that returns a Results, a check
  that raises an error, a check that raises \<^verbatim>\<open>SystemExit\<close>, a check that returns an
  instance of a subclass of Result, and three renderers.
\<close>

definition empty_world :: world where
  "empty_world = \<lparr>calls = [], rendered = [], errors = []\<rparr>"

definition svc_a :: plugin where
  "svc_a = \<lparr>oid = 1, source_name = ''ipahealthcheck.meta.services'', class_name = ''svc_a'',
            service_name = Some ''A'', requires = [],
            check = Returns (PResult \<lparr>plugin_ref = 1, severity = SUCCESS, kw_msg = None,
                                       kw_exception = None\<rparr>)\<rparr>"

definition svc_b :: plugin where
  "svc_b = \<lparr>oid = 2, source_name = ''ipahealthcheck.meta.services'', class_name = ''svc_b'',
            service_name = Some ''B'', requires = [],
            check = Returns (PResult \<lparr>plugin_ref = 2, severity = CRITICAL, kw_msg = None,
                                       kw_exception = None\<rparr>)\<rparr>"

definition dep :: plugin where
  "dep = \<lparr>oid = 3, source_name = ''ipahealthcheck.foo.bar'', class_name = ''BazCheck'',
          service_name = None, requires = [''A'', ''B''], check = Returns PNone\<rparr>"

definition dep3 :: plugin where
  "dep3 = \<lparr>oid = 8, source_name = ''ipahealthcheck.foo.bar'', class_name = ''QuxCheck'',
           service_name = None, requires = [''A'', ''B'', ''C''], check = Returns PNone\<rparr>"

definition svc_many :: plugin where
  "svc_many = \<lparr>oid = 4, source_name = ''ipahealthcheck.meta.services'', class_name = ''svc_many'',
               service_name = Some ''C'', requires = [],
               check = Returns (PResults [\<lparr>plugin_ref = 4, severity = SUCCESS, kw_msg = None,
                                           kw_exception = None\<rparr>])\<rparr>"

definition crash :: plugin where
  "crash = \<lparr>oid = 5, source_name = ''ipahealthcheck.foo.bar'', class_name = ''CrashCheck'',
            service_name = None, requires = [],
            check = Raises (PyExc True ''RuntimeError'' ''boom'')\<rparr>"

definition quit :: plugin where
  "quit = \<lparr>oid = 7, source_name = ''ipahealthcheck.foo.bar'', class_name = ''QuitCheck'',
           service_name = None, requires = [],
           check = Raises (PyExc False ''SystemExit'' ''1'')\<rparr>"

definition sub :: plugin where
  "sub = \<lparr>oid = 6, source_name = ''ipahealthcheck.foo.bar'', class_name = ''SubCheck'',
          service_name = None, requires = [],
          check = Returns (PResultSub \<lparr>plugin_ref = 6, severity = CRITICAL,
                                        kw_msg = Some ''down'', kw_exception = None\<rparr>)\<rparr>"

definition plain_renderer :: renderer where
  "plain_renderer = \<lparr>output_only = False, render = (\<lambda>rs. None)\<rparr>"

definition failing_renderer :: renderer where
  "failing_renderer =
     \<lparr>output_only = False, render = (\<lambda>rs. Some (PyExc True ''IOError'' ''disk full''))\<rparr>"

definition list_renderer :: renderer where
  "list_renderer = \<lparr>output_only = True, render = (\<lambda>rs. None)\<rparr>"

section \<open>Properties\<close>

subsection \<open>The loops compute what the descriptions say\<close>

lemma run_plugin_eq: "run_plugin p av w = (outcome_of p, w\<lparr>calls := calls w @ [p]\<rparr>)"
  by (simp add: run_plugin_def outcome_of_def Let_def split: outcome.splits pyval.splits)

lemma add_or_extend_eq: "add_or_extend rs c = rs @ results_of c"
  by (cases c) simp_all

lemma outcome_of_escapes: "(\<exists>e. outcome_of p = Inl e) \<longleftrightarrow> escapes p"
  by (auto simp add: outcome_of_def run_plugin_def escapes_def Let_def
      split: outcome.splits pyval.splits if_splits)

lemma outcome_of_results: "(\<exists>rs. outcome_of p = Inr (IsResults rs)) \<longleftrightarrow> yields_results p"
  by (auto simp add: outcome_of_def run_plugin_def yields_results_def Let_def
      split: outcome.splits pyval.splits if_splits)

lemma outcome_of_single:
  assumes "\<not> yields_results p" and "\<not> escapes p"
  obtains r where "outcome_of p = Inr (IsResult r)"
proof (cases "outcome_of p")
  case (Inl e)
  with assms(2) outcome_of_escapes [of p] show ?thesis by auto
next
  case (Inr c)
  with assms(1) outcome_of_results [of p] that show ?thesis by (cases c) auto
qed

lemma service_loop_ok:
  "phase1_returns s c ps \<Longrightarrow>
   run_service_plugins_loop ps s c rs av w =
     (Inr (rs @ spec_phase1_results s c ps, av @ spec_available s c ps),
      w\<lparr>calls := calls w @ filter (service_selected s c) ps\<rparr>)"
proof (induction ps arbitrary: rs av w)
  case Nil
  then show ?case by (simp add: spec_phase1_results_def spec_available_def)
next
  case (Cons p ps)
  from Cons.prems have rest: "phase1_returns s c ps"
    by (simp add: phase1_returns_def)
  show ?case
  proof (cases "service_selected s c p")
    case False
    with Cons.IH [OF rest] show ?thesis
      by (auto simp add: service_selected_def spec_phase1_results_def spec_available_def
          split: option.splits)
  next
    case True
    with Cons.prems have "\<not> yields_results p" "\<not> escapes p"
      by (simp_all add: phase1_returns_def)
    then obtain r where r: "outcome_of p = Inr (IsResult r)"
      by (rule outcome_of_single)
    from True obtain n where n: "service_name p = Some n"
      by (auto simp add: service_selected_def)
    show ?thesis
      using True n r Cons.IH [OF rest]
      by (simp add: service_selected_def run_plugin_eq spec_phase1_results_def
          spec_available_def succeeds_def plugin_results_def)
  qed
qed

lemma service_loop_fault:
  "\<not> phase1_returns s c ps \<Longrightarrow>
   \<exists>e. fst (run_service_plugins_loop ps s c rs av w) = Inl e"
proof (induction ps arbitrary: rs av w)
  case Nil
  then show ?case by (simp add: phase1_returns_def)
next
  case (Cons p ps)
  show ?case
  proof (cases "service_selected s c p")
    case False
    with Cons.prems have "\<not> phase1_returns s c ps"
      by (simp add: phase1_returns_def)
    from Cons.IH [OF this] False show ?thesis
      by (auto simp add: service_selected_def split: option.splits)
  next
    case True
    then obtain n where n: "service_name p = Some n"
      by (auto simp add: service_selected_def)
    show ?thesis
    proof (cases "outcome_of p")
      case (Inl e)
      with True n show ?thesis
        by (simp add: service_selected_def run_plugin_eq)
    next
      case (Inr ch)
      show ?thesis
      proof (cases ch)
        case (IsResults xs)
        with Inr True n show ?thesis
          by (simp add: service_selected_def run_plugin_eq)
      next
        case (IsResult r)
        with Inr have "\<not> yields_results p" "\<not> escapes p"
          using outcome_of_results [of p] outcome_of_escapes [of p] by auto
        with Cons.prems have "\<not> phase1_returns s c ps"
          by (simp add: phase1_returns_def)
        from Cons.IH [OF this] True n Inr IsResult show ?thesis
          by (simp add: service_selected_def run_plugin_eq)
      qed
    qed
  qed
qed

lemma service_loop_rendered:
  "rendered (snd (run_service_plugins_loop ps s c rs av w)) = rendered w"
proof (induction ps arbitrary: rs av w)
  case Nil
  then show ?case by simp
next
  case (Cons p ps)
  show ?case
  proof (cases "service_selected s c p")
    case False
    then show ?thesis
      using Cons.IH by (auto simp add: service_selected_def split: option.splits)
  next
    case True
    then obtain n where n: "service_name p = Some n"
      by (auto simp add: service_selected_def)
    show ?thesis
    proof (cases "outcome_of p")
      case (Inl e)
      with True n show ?thesis
        by (simp add: service_selected_def run_plugin_eq)
    next
      case (Inr ch)
      with True n show ?thesis
        by (cases ch) (simp_all add: service_selected_def run_plugin_eq Cons.IH)
    qed
  qed
qed

lemma run_plugins_loop_ok:
  "phase2_returns av s c ps \<Longrightarrow>
   run_plugins_loop it ps av s c rs w =
     (Inr (rs @ spec_phase2_results it av s c ps),
      w\<lparr>calls := calls w @ filter (phase2_runs av s c) ps\<rparr>)"
proof (induction ps arbitrary: rs w)
  case Nil
  then show ?case by (simp add: spec_phase2_results_def)
next
  case (Cons p ps)
  from Cons.prems have rest: "phase2_returns av s c ps"
    by (simp add: phase2_returns_def)
  show ?case
  proof (cases "plugin_selected s c p")
    case False
    then show ?thesis
      using Cons.IH [OF rest]
      by (auto simp add: plugin_selected_def phase2_runs_def spec_phase2_results_def)
  next
    case True
    show ?thesis
    proof (cases "set (requires p) - av = {}")
      case False
      with True show ?thesis
        using Cons.IH [OF rest]
        by (auto simp add: plugin_selected_def phase2_runs_def spec_phase2_results_def
            spec_gate_def add_or_extend_eq Result_def)
    next
      case met: True
      with True Cons.prems have "\<not> escapes p"
        by (simp add: phase2_returns_def phase2_runs_def)
      then obtain ch where ch: "outcome_of p = Inr ch"
        using outcome_of_escapes [of p] by (cases "outcome_of p") auto
      with True met show ?thesis
        using Cons.IH [OF rest]
        by (auto simp add: plugin_selected_def phase2_runs_def spec_phase2_results_def
            spec_gate_def add_or_extend_eq run_plugin_eq plugin_results_def)
    qed
  qed
qed

lemma run_plugins_loop_fault:
  "\<not> phase2_returns av s c ps \<Longrightarrow>
   \<exists>e. fst (run_plugins_loop it ps av s c rs w) = Inl e"
proof (induction ps arbitrary: rs w)
  case Nil
  then show ?case by (simp add: phase2_returns_def)
next
  case (Cons p ps)
  show ?case
  proof (cases "phase2_runs av s c p \<and> escapes p")
    case True
    then obtain e where "outcome_of p = Inl e"
      using outcome_of_escapes [of p] by auto
    with True show ?thesis
      by (auto simp add: phase2_runs_def plugin_selected_def run_plugin_eq)
  next
    case False
    with Cons.prems have "\<not> phase2_returns av s c ps"
      by (auto simp add: phase2_returns_def)
    from Cons.IH [OF this] have ih: "\<And>rs w. \<exists>e. fst (run_plugins_loop it ps av s c rs w) = Inl e"
      by blast
    show ?thesis
    proof (cases "phase2_runs av s c p")
      case True
      with False have "\<not> escapes p" by simp
      then obtain ch where "outcome_of p = Inr ch"
        using outcome_of_escapes [of p] by (cases "outcome_of p") auto
      with True ih show ?thesis
        by (auto simp add: phase2_runs_def plugin_selected_def run_plugin_eq)
    next
      case nr: False
      with ih show ?thesis
        by (auto simp add: phase2_runs_def plugin_selected_def)
    qed
  qed
qed

lemma run_plugins_loop_pass:
  "\<not> phase2_runs av s c p \<Longrightarrow>
   \<exists>rs'. run_plugins_loop it (p # ps) av s c rs w = run_plugins_loop it ps av s c rs' w"
  by (auto simp add: phase2_runs_def plugin_selected_def)

lemma run_plugins_loop_calls:
  "\<exists>k. calls (snd (run_plugins_loop it ps av s c rs w)) =
         calls w @ take k (filter (phase2_runs av s c) ps)"
proof (induction ps arbitrary: rs w)
  case Nil
  then show ?case by simp
next
  case (Cons p ps)
  show ?case
  proof (cases "phase2_runs av s c p")
    case False
    then obtain rs' where
      "run_plugins_loop it (p # ps) av s c rs w = run_plugins_loop it ps av s c rs' w"
      using run_plugins_loop_pass by blast
    with Cons.IH [of rs' w] False show ?thesis
      by simp
  next
    case True
    show ?thesis
    proof (cases "outcome_of p")
      case (Inl e)
      with True have "calls (snd (run_plugins_loop it (p # ps) av s c rs w)) =
          calls w @ take 1 (filter (phase2_runs av s c) (p # ps))"
        by (auto simp add: phase2_runs_def plugin_selected_def run_plugin_eq)
      then show ?thesis by blast
    next
      case (Inr ch)
      from Cons.IH [of "add_or_extend rs ch" "w\<lparr>calls := calls w @ [p]\<rparr>"]
      obtain k where "calls (snd (run_plugins_loop it ps av s c (add_or_extend rs ch)
           (w\<lparr>calls := calls w @ [p]\<rparr>))) =
         calls w @ [p] @ take k (filter (phase2_runs av s c) ps)"
        by auto
      with True Inr have "calls (snd (run_plugins_loop it (p # ps) av s c rs w)) =
          calls w @ take (Suc k) (filter (phase2_runs av s c) (p # ps))"
        by (auto simp add: phase2_runs_def plugin_selected_def run_plugin_eq)
      then show ?thesis by blast
    qed
  qed
qed

lemma run_plugins_loop_rendered:
  "rendered (snd (run_plugins_loop it ps av s c rs w)) = rendered w"
proof (induction ps arbitrary: rs w)
  case Nil
  then show ?case by simp
next
  case (Cons p ps)
  show ?case
  proof (cases "outcome_of p")
    case (Inl e)
    then show ?thesis
      using Cons.IH by (auto simp add: run_plugin_eq)
  next
    case (Inr ch)
    then show ?thesis
      using Cons.IH by (auto simp add: run_plugin_eq)
  qed
qed

lemma run_service_plugins_ok:
  assumes "phase1_returns s c ps"
  shows "run_service_plugins ps s c w =
     (Inr (spec_phase1_results s c ps, set (spec_available s c ps)),
      w\<lparr>calls := calls w @ filter (service_selected s c) ps\<rparr>)"
  using service_loop_ok [OF assms, of "[]" "[]" w]
  by (simp add: run_service_plugins_def)

lemma run_service_plugins_fault:
  assumes "\<not> phase1_returns s c ps"
  shows "\<exists>e. fst (run_service_plugins ps s c w) = Inl e"
  using service_loop_fault [OF assms, of "[]" "[]" w]
  by (cases "run_service_plugins_loop ps s c [] [] w")
     (auto simp add: run_service_plugins_def split: sum.splits)

lemma run_service_plugins_Inr:
  assumes "run_service_plugins ps s c w = (Inr x, w')"
  shows "phase1_returns s c ps"
proof (rule ccontr)
  assume "\<not> phase1_returns s c ps"
  from run_service_plugins_fault [OF this, of w] assms show False by simp
qed

lemma run_service_plugins_rendered:
  "rendered (snd (run_service_plugins ps s c w)) = rendered w"
  using service_loop_rendered [of ps s c "[]" "[]" w]
  by (cases "run_service_plugins_loop ps s c [] [] w")
     (auto simp add: run_service_plugins_def split: sum.splits)

lemma run_plugins_ok:
  assumes "phase2_returns av s c ps"
  shows "run_plugins it ps av s c w =
     (Inr (spec_phase2_results it av s c ps),
      w\<lparr>calls := calls w @ filter (phase2_runs av s c) ps\<rparr>)"
  using run_plugins_loop_ok [OF assms, of it "[]" w] by (simp add: run_plugins_def)

lemma run_plugins_Inr:
  assumes "run_plugins it ps av s c w = (Inr x, w')"
  shows "phase2_returns av s c ps"
proof (rule ccontr)
  assume "\<not> phase2_returns av s c ps"
  from run_plugins_loop_fault [OF this, of it "[]" w] assms show False
    by (simp add: run_plugins_def)
qed

lemma run_plugins_calls:
  "\<exists>k. drop (length (calls w)) (calls (snd (run_plugins it ps av s c w))) =
         take k (filter (phase2_runs av s c) ps)"
  using run_plugins_loop_calls [of it ps av s c "[]" w]
  by (auto simp add: run_plugins_def)

lemma run_plugins_rendered:
  "rendered (snd (run_plugins it ps av s c w)) = rendered w"
  by (simp add: run_plugins_def run_plugins_loop_rendered)

lemma succeeds_iff:
  "succeeds p \<longleftrightarrow> (\<exists>r. outcome_of p = Inr (IsResult r) \<and> severity r = SUCCESS)"
  by (auto simp add: succeeds_def split: sum.splits checked.splits)

lemma spec_available_set:
  "set (spec_available s c ps) =
     {n. \<exists>p\<in>set ps. service_name p = Some n \<and> source_or_check_matches p s c \<and>
           (\<exists>r. fst (run_plugin p {} w) = Inr (IsResult r) \<and> severity r = SUCCESS)}"
  by (auto simp add: spec_available_def service_selected_def succeeds_iff run_plugin_eq
      split: option.splits)

subsection \<open>Set iteration and the names a message lists\<close>

lemma iter_ok_sorted: "iter_ok sorted_list_of_set"
  by (simp add: iter_ok_def)

lemma iter_singleton: "iter_ok it \<Longrightarrow> it {x} = [x]"
proof -
  assume "iter_ok it"
  then have s: "set (it {x}) = {x}" and d: "distinct (it {x})"
    by (simp_all add: iter_ok_def)
  show "it {x} = [x]"
  proof (cases "it {x}")
    case Nil
    with s show ?thesis by simp
  next
    case (Cons y ys)
    with s d have "y = x" "set ys \<subseteq> {x}" "x \<notin> set ys" by auto
    then have "ys = []" by (cases ys) auto
    with Cons \<open>y = x\<close> show ?thesis by simp
  qed
qed

lemma split_names_plain:
  "CHR '','' \<notin> set x \<Longrightarrow> split_names acc (x @ r) = split_names (acc @ x) r"
  by (induction x arbitrary: acc) auto

lemma split_names_sep: "split_names acc ('', '' @ r) = acc # split_names [] r"
  by simp

lemma split_names_join:
  "xs \<noteq> [] \<Longrightarrow> \<forall>x\<in>set xs. CHR '','' \<notin> set x \<Longrightarrow> split_names [] (str_join '', '' xs) = xs"
proof (induction "'', ''" xs rule: str_join.induct)
  case 1
  then show ?case by simp
next
  case (2 x)
  then have "split_names [] (x @ []) = split_names ([] @ x) []"
    by (intro split_names_plain) simp
  then show ?case by simp
next
  case (3 x y zs)
  then have x: "CHR '','' \<notin> set x" and ih: "split_names [] (str_join '', '' (y # zs)) = y # zs"
    by simp_all
  have "split_names [] (x @ ('', '' @ str_join '', '' (y # zs))) =
      split_names ([] @ x) ('', '' @ str_join '', '' (y # zs))"
    by (rule split_names_plain [OF x])
  also have "\<dots> = x # split_names [] (str_join '', '' (y # zs))"
    by (simp only: append_Nil split_names_sep)
  finally show ?case using ih by simp
qed

lemma sorted_example: "sorted_list_of_set ({''A'', ''B'', ''C''} - {''A''}) = [''B'', ''C'']"
proof -
  have "{''A'', ''B'', ''C''} - {''A''} = set [''B'', ''C'']" by auto
  then show ?thesis
    by (simp only: sorted_list_of_set_sort_remdups) simp
qed

subsection \<open>The render hand-off and the run as a whole\<close>

lemma render_guarded_rendered: "rendered (snd (render_guarded out r w)) = rendered w @ [r]"
  by (simp add: render_guarded_def Let_def split: option.splits)

lemma render_guarded_calls: "calls (snd (render_guarded out r w)) = calls w"
  by (simp add: render_guarded_def Let_def split: option.splits)

lemma render_guarded_escape: "fst (render_guarded out r w) = render_escape out r"
  by (simp add: render_guarded_def render_escape_def Let_def split: option.splits)

lemma render_guarded_errors:
  "errors (snd (render_guarded out r w)) =
     errors w @ (case render out r of
                   None \<Rightarrow> []
                 | Some e \<Rightarrow> if is_Exception e
                     then [''Output raised '' @ exc_class e @ '': '' @ exc_str e] else [])"
  by (simp add: render_guarded_def Let_def split: option.splits)

lemma main_output_only:
  "output_only out \<Longrightarrow> main it ps s c out w = render_guarded out None w"
  by (simp add: main_def)

lemma main_checks_ok:
  assumes "\<not> output_only out"
    and "phase1_returns s c ps"
    and "phase2_returns (set (spec_available s c ps)) s c ps"
  shows "main it ps s c out w =
     render_guarded out
        (Some (spec_phase1_results s c ps
               @ spec_phase2_results it (set (spec_available s c ps)) s c ps))
        (w\<lparr>calls := calls w @ filter (service_selected s c) ps
              @ filter (phase2_runs (set (spec_available s c ps)) s c) ps\<rparr>)"
  using assms(1)
  by (simp add: main_def run_service_plugins_ok [OF assms(2)] run_plugins_ok [OF assms(3)])

lemma main_checks_fault:
  assumes "\<not> output_only out" and "\<not> phase1_returns s c ps"
  shows "(\<exists>e. fst (main it ps s c out w) = Some e) \<and>
         rendered (snd (main it ps s c out w)) = rendered w"
proof (cases "run_service_plugins ps s c w")
  case (Pair x w1)
  with run_service_plugins_fault [OF assms(2), of w] obtain e where x: "x = Inl e"
    by auto
  from Pair run_service_plugins_rendered [of ps s c w] have "rendered w1 = rendered w"
    by simp
  with Pair x assms(1) show ?thesis
    by (simp add: main_def)
qed

subsection \<open>The examples\<close>

lemma selected_examples:
  "service_selected None None svc_a" "service_selected None None svc_b"
  "\<not> service_selected None None dep" "plugin_selected None None dep"
  "\<not> service_selected None None dep3" "plugin_selected None None dep3"
  "\<not> plugin_selected None None svc_a" "\<not> plugin_selected None None svc_b"
  "\<not> yields_results svc_a" "\<not> yields_results svc_b"
  "\<not> escapes svc_a" "\<not> escapes svc_b" "\<not> escapes dep" "\<not> escapes dep3"
  "succeeds svc_a" "\<not> succeeds svc_b"
  by (simp_all add: service_selected_def plugin_selected_def source_or_check_matches_def
      yields_results_def escapes_def succeeds_def outcome_of_def run_plugin_def
      svc_a_def svc_b_def dep_def dep3_def)

lemma spec_available_example: "set (spec_available None None [svc_a, svc_b, dep]) = {''A''}"
  by (simp add: spec_available_def selected_examples) (simp add: svc_a_def)

lemma phase1_example:
  "spec_phase1_results None None [svc_a, svc_b, dep] =
     [\<lparr>plugin_ref = 1, severity = SUCCESS, kw_msg = None, kw_exception = None\<rparr>,
      \<lparr>plugin_ref = 2, severity = CRITICAL, kw_msg = None, kw_exception = None\<rparr>]"
  by (simp add: spec_phase1_results_def selected_examples)
     (simp add: plugin_results_def outcome_of_def run_plugin_def svc_a_def svc_b_def)

lemma phase2_example:
  "spec_phase2_results sorted_list_of_set {''A''} None None [svc_a, svc_b, dep] =
     [\<lparr>plugin_ref = 3, severity = ERROR, kw_msg = Some ''B service(s) not running'',
       kw_exception = None\<rparr>]"
proof -
  have "set (requires dep) - {''A''} = {''B''}"
    by (auto simp add: dep_def)
  then show ?thesis
    by (simp add: spec_phase2_results_def selected_examples spec_gate_def) (simp add: dep_def)
qed

lemma phase_returns_example:
  "phase1_returns None None [svc_a, svc_b, dep]"
  "phase2_returns {''A''} None None [svc_a, svc_b, dep]"
  "phase2_returns {''A''} None None [svc_a, svc_b, dep, dep3]"
  by (simp_all add: phase1_returns_def phase2_returns_def selected_examples)

lemma main_output_only_example:
  "main sorted_list_of_set [svc_many, crash] None None list_renderer empty_world =
     (None, \<lparr>calls = [], rendered = [None], errors = []\<rparr>)"
  by (simp add: main_output_only list_renderer_def render_guarded_def empty_world_def)

lemma main_render_fault_example:
  "main sorted_list_of_set [svc_a, svc_b, dep] None None failing_renderer empty_world =
     (None,
      \<lparr>calls = [svc_a, svc_b],
       rendered = [Some [\<lparr>plugin_ref = 1, severity = SUCCESS, kw_msg = None, kw_exception = None\<rparr>,
                         \<lparr>plugin_ref = 2, severity = CRITICAL, kw_msg = None, kw_exception = None\<rparr>,
                         \<lparr>plugin_ref = 3, severity = ERROR,
                           kw_msg = Some ''B service(s) not running'', kw_exception = None\<rparr>]],
       errors = [''Output raised IOError: disk full'']\<rparr>)"
proof -
  have h1: "\<not> output_only failing_renderer"
    by (simp add: failing_renderer_def)
  have h2: "phase1_returns None None [svc_a, svc_b, dep]"
    by (rule phase_returns_example)
  have h3: "phase2_returns (set (spec_available None None [svc_a, svc_b, dep])) None None
      [svc_a, svc_b, dep]"
    by (simp add: spec_available_example phase_returns_example)
  have d: "set (requires dep) - {''A''} \<noteq> {}"
    by (auto simp add: dep_def)
  show ?thesis
    unfolding main_checks_ok [OF h1 h2 h3]
    using d
    by (simp add: spec_available_example phase1_example phase2_example selected_examples
        phase2_runs_def render_guarded_def failing_renderer_def empty_world_def)
qed

subsection \<open>Safe invocation\<close>

text \<open>
  C2 as stated fails: line 40 is \<^verbatim>\<open>except Exception\<close>, so a fault whose class does
  not derive from \<^verbatim>\<open>Exception\<close> is not caught. A \<^verbatim>\<open>check()\<close> that raises
  \<^verbatim>\<open>SystemExit\<close> leaves \<^verbatim>\<open>run_plugin\<close> with that exception and no Result.
\<close>

theorem run_plugin_fault_escapes_counterexample:
  "check quit = Raises (PyExc False ''SystemExit'' ''1'') \<and>
   run_plugin quit {} empty_world =
     (Inl (PyExc False ''SystemExit'' ''1''), empty_world\<lparr>calls := [quit]\<rparr>)"
  by (simp add: run_plugin_def quit_def empty_world_def)

text \<open>
  C2, amended: when \<^verbatim>\<open>check()\<close> raises an exception that derives from
  \<^verbatim>\<open>Exception\<close> and whose text is M, \<^verbatim>\<open>run_plugin\<close> returns one CRITICAL Result
  that refers to the plugin and carries M as its fault description, and nothing
  propagates; an exception that does not derive from \<^verbatim>\<open>Exception\<close> propagates.
\<close>

theorem run_plugin_fault_critical:
  "check plugin = Raises e \<Longrightarrow>
     (is_Exception e \<longrightarrow>
        run_plugin plugin available w =
          (Inr (IsResult \<lparr>plugin_ref = oid plugin, severity = CRITICAL, kw_msg = None,
                          kw_exception = Some (exc_str e)\<rparr>),
           w\<lparr>calls := calls w @ [plugin]\<rparr>)) \<and>
     (\<not> is_Exception e \<longrightarrow>
        run_plugin plugin available w = (Inl e, w\<lparr>calls := calls w @ [plugin]\<rparr>))"
  by (simp add: run_plugin_def Result_def)

theorem run_plugin_fault_critical_witness:
  "check crash = Raises (PyExc True ''RuntimeError'' ''boom'') \<and>
   is_Exception (PyExc True ''RuntimeError'' ''boom'') \<and>
   run_plugin crash {} empty_world =
     (Inr (IsResult \<lparr>plugin_ref = oid crash, severity = CRITICAL, kw_msg = None,
                     kw_exception = Some ''boom''\<rparr>),
      empty_world\<lparr>calls := calls empty_world @ [crash]\<rparr>)"
proof -
  have h: "check crash = Raises (PyExc True ''RuntimeError'' ''boom'')"
    by (simp add: crash_def)
  from run_plugin_fault_critical [OF h, of "{}" empty_world] h show ?thesis
    by simp
qed

text \<open>
  C3: when \<^verbatim>\<open>check()\<close> returns an object whose type is Result or Results, that
  object is the value of \<^verbatim>\<open>run_plugin\<close>; when it returns anything else, \<^verbatim>\<open>None\<close>
  included, the value is one SUCCESS Result that refers to the plugin.
\<close>

theorem run_plugin_return:
  "check plugin = Returns v \<Longrightarrow>
     (v = PResult r \<longrightarrow> fst (run_plugin plugin available w) = Inr (IsResult r)) \<and>
     (v = PResults rs \<longrightarrow> fst (run_plugin plugin available w) = Inr (IsResults rs)) \<and>
     ((\<forall>x. v \<noteq> PResult x) \<and> (\<forall>xs. v \<noteq> PResults xs) \<longrightarrow>
        fst (run_plugin plugin available w) =
          Inr (IsResult \<lparr>plugin_ref = oid plugin, severity = SUCCESS, kw_msg = None,
                         kw_exception = None\<rparr>)) \<and>
     snd (run_plugin plugin available w) = w\<lparr>calls := calls w @ [plugin]\<rparr>"
  by (cases v) (simp_all add: run_plugin_def Result_def)

theorem run_plugin_return_witness:
  "check dep = Returns PNone \<and>
   fst (run_plugin dep {} empty_world) =
     Inr (IsResult \<lparr>plugin_ref = oid dep, severity = SUCCESS, kw_msg = None,
                    kw_exception = None\<rparr>) \<and>
   check svc_many = Returns (PResults [\<lparr>plugin_ref = 4, severity = SUCCESS, kw_msg = None,
                                           kw_exception = None\<rparr>]) \<and>
   fst (run_plugin svc_many {} empty_world) =
     Inr (IsResults [\<lparr>plugin_ref = 4, severity = SUCCESS, kw_msg = None,
                      kw_exception = None\<rparr>])"
proof -
  have h1: "check dep = Returns PNone"
    by (simp add: dep_def)
  have h2: "check svc_many = Returns (PResults [\<lparr>plugin_ref = 4, severity = SUCCESS,
      kw_msg = None, kw_exception = None\<rparr>])"
    by (simp add: svc_many_def)
  from run_plugin_return [OF h1, of _ "{}" empty_world]
       run_plugin_return [OF h2, of _ "{}" empty_world] h1 h2
  show ?thesis by simp
qed

text \<open>
  C9: the pass-through is decided by \<^verbatim>\<open>type(result)\<close>, so an instance of a proper
  subclass of Result or of Results is dropped and replaced by a SUCCESS Result for the
  plugin.
\<close>

theorem run_plugin_subtype_discarded:
  "check plugin = Returns v \<Longrightarrow> v = PResultSub r \<or> v = PResultsSub rs \<Longrightarrow>
     run_plugin plugin available w =
       (Inr (IsResult \<lparr>plugin_ref = oid plugin, severity = SUCCESS, kw_msg = None,
                       kw_exception = None\<rparr>),
        w\<lparr>calls := calls w @ [plugin]\<rparr>)"
  by (auto simp add: run_plugin_def Result_def)

theorem run_plugin_subtype_discarded_witness:
  "check sub = Returns (PResultSub \<lparr>plugin_ref = 6, severity = CRITICAL,
                                      kw_msg = Some ''down'', kw_exception = None\<rparr>) \<and>
   run_plugin sub {} empty_world =
     (Inr (IsResult \<lparr>plugin_ref = oid sub, severity = SUCCESS, kw_msg = None,
                     kw_exception = None\<rparr>),
      empty_world\<lparr>calls := calls empty_world @ [sub]\<rparr>)"
proof -
  have h: "check sub = Returns (PResultSub \<lparr>plugin_ref = 6, severity = CRITICAL,
      kw_msg = Some ''down'', kw_exception = None\<rparr>)"
    by (simp add: sub_def)
  from run_plugin_subtype_discarded [OF h, of _ "[]" "{}" empty_world] h show ?thesis
    by simp
qed

text \<open>
  C10: the value and the effect of \<^verbatim>\<open>run_plugin\<close> are the same for any two
  available-services arguments.
\<close>

theorem run_plugin_ignores_available:
  "run_plugin plugin a1 w = run_plugin plugin a2 w"
  by (simp add: run_plugin_def)

subsection \<open>The filter predicate\<close>

text \<open>
  C6 as stated fails for the check filter: the source tests \<^verbatim>\<open>if check\<close>, so the
  empty string, which is not \<^verbatim>\<open>None\<close>, filters nothing. A plugin of class
  \<^verbatim>\<open>BazCheck\<close> matches the check filter \<^verbatim>\<open>""\<close>.
\<close>

theorem empty_check_matches_counterexample:
  "source_or_check_matches dep None (Some '''') \<and> class_name dep \<noteq> ''''"
  by (simp add: source_or_check_matches_def dep_def)

text \<open>
  C6, amended: every plugin matches when both filters are \<^verbatim>\<open>None\<close>; with a source
  filter \<open>s\<close> a plugin matches only if its module is \<open>s\<close> (and, without a check filter,
  exactly then); with a check filter \<open>c\<close> that is not the empty string a plugin matches
  only if its class name is \<open>c\<close>.
\<close>

theorem source_or_check_matches_filter:
  "source_or_check_matches p None None \<and>
   (source_or_check_matches p (Some s) chk \<longrightarrow> source_name p = s) \<and>
   (source_or_check_matches p (Some s) None \<longleftrightarrow> source_name p = s) \<and>
   (c \<noteq> [] \<longrightarrow> source_or_check_matches p source (Some c) \<longrightarrow> class_name p = c)"
  by (auto simp add: source_or_check_matches_def split: option.splits if_splits)

theorem source_or_check_matches_filter_witness:
  "''BazCheck'' \<noteq> [] \<and>
   source_or_check_matches dep (Some ''ipahealthcheck.foo.bar'') (Some ''BazCheck'') \<and>
   source_name dep = ''ipahealthcheck.foo.bar'' \<and> class_name dep = ''BazCheck''"
proof -
  have m: "source_or_check_matches dep (Some ''ipahealthcheck.foo.bar'') (Some ''BazCheck'')"
    by (simp add: source_or_check_matches_def dep_def)
  have n: "''BazCheck'' \<noteq> []" by simp
  from source_or_check_matches_filter [where p = dep and s = "''ipahealthcheck.foo.bar''"
      and chk = "Some ''BazCheck''" and c = "''BazCheck''"
      and source = "Some ''ipahealthcheck.foo.bar''"] m n
  show ?thesis by blast
qed

subsection \<open>Phase 2: the requirement gate\<close>

text \<open>
  C1: for every plugin that is not a service probe and matches the filter, phase 2 looks
  at the required services that are not available. If there are any, \<^verbatim>\<open>check()\<close> is
  never invoked, and the Results of the phase hold an ERROR Result for the plugin whose
  message is the missing names joined by a comma and a space, followed by
  \<^verbatim>\<open>service(s) not running\<close>: read back by cutting at the separators, the message lists
  each missing service once and nothing else (for names without a comma). If none is
  missing, the plugin is run through \<^verbatim>\<open>run_plugin\<close> and what it yields is among the
  Results of the phase. The phase returns its Results whenever no plugin it runs lets an
  exception escape. With requirements A and B and only A available, the message names B
  alone.
\<close>

theorem run_plugins_requirement_gate:
  assumes "p \<in> set ps" and "service_name p = None" and "source_or_check_matches p s c"
  shows "(set (requires p) - av \<noteq> {} \<longrightarrow>
            p \<notin> set (drop (length (calls w)) (calls (snd (run_plugins it ps av s c w))))) \<and>
         (run_plugins it ps av s c w = (Inr rs, w') \<longrightarrow> set (requires p) - av \<noteq> {} \<longrightarrow>
            \<lparr>plugin_ref = oid p, severity = ERROR,
              kw_msg = Some (str_join '', '' (it (set (requires p) - av))
                             @ '' service(s) not running''),
              kw_exception = None\<rparr> \<in> set rs) \<and>
         (run_plugins it ps av s c w = (Inr rs, w') \<longrightarrow> set (requires p) - av \<noteq> {} \<longrightarrow>
          iter_ok it \<longrightarrow> (\<forall>n\<in>set (requires p). CHR '','' \<notin> set n) \<longrightarrow>
            (\<exists>listing.
               \<lparr>plugin_ref = oid p, severity = ERROR,
                 kw_msg = Some (listing @ '' service(s) not running''),
                 kw_exception = None\<rparr> \<in> set rs \<and>
               set (split_names [] listing) = set (requires p) - av \<and>
               distinct (split_names [] listing))) \<and>
         (run_plugins it ps av s c w = (Inr rs, w') \<longrightarrow> set (requires p) - av = {} \<longrightarrow>
            p \<in> set (drop (length (calls w)) (calls (snd (run_plugins it ps av s c w)))) \<and>
            (\<exists>ch. fst (run_plugin p av w) = Inr ch \<and> set (results_of ch) \<subseteq> set rs)) \<and>
         (phase2_returns av s c ps \<longrightarrow>
            (\<exists>rs w'. run_plugins it ps av s c w = (Inr rs, w'))) \<and>
         (run_plugins it ps av s c w = (Inr rs, w') \<longrightarrow> iter_ok it \<longrightarrow>
          set (requires p) = {''A'', ''B''} \<longrightarrow> av = {''A''} \<longrightarrow>
            p \<notin> set (drop (length (calls w)) (calls (snd (run_plugins it ps av s c w)))) \<and>
            \<lparr>plugin_ref = oid p, severity = ERROR,
              kw_msg = Some ''B service(s) not running'', kw_exception = None\<rparr> \<in> set rs)"
proof -
  let ?new = "drop (length (calls w)) (calls (snd (run_plugins it ps av s c w)))"
  let ?missing = "set (requires p) - av"
  have sel: "plugin_selected s c p"
    using assms by (simp add: plugin_selected_def)
  have never: "?missing \<noteq> {} \<Longrightarrow> p \<notin> set ?new"
  proof -
    assume m: "?missing \<noteq> {}"
    obtain k where k: "?new = take k (filter (phase2_runs av s c) ps)"
      using run_plugins_calls [of w it ps av s c] by blast
    have "p \<notin> set (filter (phase2_runs av s c) ps)"
      using m by (simp add: phase2_runs_def)
    then show ?thesis
      using k set_take_subset [of k "filter (phase2_runs av s c) ps"] by auto
  qed
  have ret: "run_plugins it ps av s c w = (Inr rs, w') \<Longrightarrow>
      rs = spec_phase2_results it av s c ps \<and> ?new = filter (phase2_runs av s c) ps"
  proof -
    assume r: "run_plugins it ps av s c w = (Inr rs, w')"
    from run_plugins_ok [OF run_plugins_Inr [OF r], of it w] r show ?thesis
      by auto
  qed
  have incl: "run_plugins it ps av s c w = (Inr rs, w') \<Longrightarrow> set (spec_gate it av p) \<subseteq> set rs"
    using ret assms(1) sel by (auto simp add: spec_phase2_results_def)
  have produced: "run_plugins it ps av s c w = (Inr rs, w') \<Longrightarrow> ?missing \<noteq> {} \<Longrightarrow>
      \<lparr>plugin_ref = oid p, severity = ERROR,
        kw_msg = Some (str_join '', '' (it ?missing) @ '' service(s) not running''),
        kw_exception = None\<rparr> \<in> set rs"
    using incl by (simp add: spec_gate_def)
  have listed: "run_plugins it ps av s c w = (Inr rs, w') \<Longrightarrow> ?missing \<noteq> {} \<Longrightarrow>
      iter_ok it \<Longrightarrow> \<forall>n\<in>set (requires p). CHR '','' \<notin> set n \<Longrightarrow>
      \<exists>listing.
        \<lparr>plugin_ref = oid p, severity = ERROR,
          kw_msg = Some (listing @ '' service(s) not running''),
          kw_exception = None\<rparr> \<in> set rs \<and>
        set (split_names [] listing) = ?missing \<and> distinct (split_names [] listing)"
  proof -
    assume r: "run_plugins it ps av s c w = (Inr rs, w')" and m: "?missing \<noteq> {}"
      and ok: "iter_ok it" and plain: "\<forall>n\<in>set (requires p). CHR '','' \<notin> set n"
    have fin: "finite ?missing" by simp
    from ok fin have e: "set (it ?missing) = ?missing" and d: "distinct (it ?missing)"
      by (simp_all add: iter_ok_def)
    from e m have ne: "it ?missing \<noteq> []" by auto
    from e plain have "\<forall>x\<in>set (it ?missing). CHR '','' \<notin> set x" by auto
    from split_names_join [OF ne this]
    have "split_names [] (str_join '', '' (it ?missing)) = it ?missing" .
    with produced [OF r m] e d show ?thesis
      by (intro exI [of _ "str_join '', '' (it ?missing)"]) simp
  qed
  have met: "run_plugins it ps av s c w = (Inr rs, w') \<Longrightarrow> ?missing = {} \<Longrightarrow>
      p \<in> set ?new \<and> (\<exists>ch. fst (run_plugin p av w) = Inr ch \<and> set (results_of ch) \<subseteq> set rs)"
  proof -
    assume r: "run_plugins it ps av s c w = (Inr rs, w')" and m: "?missing = {}"
    from sel m have runs: "phase2_runs av s c p"
      by (simp add: phase2_runs_def)
    with ret [OF r] assms(1) have in_calls: "p \<in> set ?new" by simp
    from run_plugins_Inr [OF r] runs assms(1) have "\<not> escapes p"
      by (auto simp add: phase2_returns_def list_all_iff)
    then obtain ch where ch: "outcome_of p = Inr ch"
      using outcome_of_escapes [of p] by (cases "outcome_of p") auto
    with incl [OF r] m have "set (results_of ch) \<subseteq> set rs"
      by (simp add: spec_gate_def plugin_results_def)
    with ch in_calls show ?thesis
      by (simp add: run_plugin_eq)
  qed
  have total: "phase2_returns av s c ps \<Longrightarrow> \<exists>rs w'. run_plugins it ps av s c w = (Inr rs, w')"
    by (simp add: run_plugins_ok)
  have example: "run_plugins it ps av s c w = (Inr rs, w') \<Longrightarrow> iter_ok it \<Longrightarrow>
      set (requires p) = {''A'', ''B''} \<Longrightarrow> av = {''A''} \<Longrightarrow>
      p \<notin> set ?new \<and>
      \<lparr>plugin_ref = oid p, severity = ERROR,
        kw_msg = Some ''B service(s) not running'', kw_exception = None\<rparr> \<in> set rs"
  proof -
    assume r: "run_plugins it ps av s c w = (Inr rs, w')" and ok: "iter_ok it"
      and req: "set (requires p) = {''A'', ''B''}" and av: "av = {''A''}"
    have d: "?missing = {''B''}"
      using req av by auto
    then have ne: "?missing \<noteq> {}" by simp
    from never [OF ne] produced [OF r ne] show ?thesis
      by (simp add: d iter_singleton [OF ok])
  qed
  from never produced listed met total example show ?thesis by blast
qed

theorem run_plugins_requirement_gate_witness:
  "dep3 \<in> set [svc_a, svc_b, dep, dep3] \<and> service_name dep3 = None \<and>
   source_or_check_matches dep3 None None \<and> set (requires dep3) - {''A''} \<noteq> {} \<and>
   iter_ok sorted_list_of_set \<and>
   phase2_returns {''A''} None None [svc_a, svc_b, dep, dep3] \<and>
   dep3 \<notin> set (drop (length (calls empty_world))
     (calls (snd (run_plugins sorted_list_of_set [svc_a, svc_b, dep, dep3] {''A''} None None
        empty_world)))) \<and>
   (\<exists>rs w'. run_plugins sorted_list_of_set [svc_a, svc_b, dep, dep3] {''A''} None None empty_world
        = (Inr rs, w') \<and>
      \<lparr>plugin_ref = oid dep3, severity = ERROR, kw_msg = Some ''B, C service(s) not running'',
        kw_exception = None\<rparr> \<in> set rs) \<and>
   split_names [] ''B, C'' = [''B'', ''C'']"
proof -
  let ?ps = "[svc_a, svc_b, dep, dep3]"
  have h1: "dep3 \<in> set ?ps" by simp
  have h2: "service_name dep3 = None" by (simp add: dep3_def)
  have h3: "source_or_check_matches dep3 None None"
    by (simp add: source_or_check_matches_def)
  have req: "set (requires dep3) = {''A'', ''B'', ''C''}" by (simp add: dep3_def)
  have h4: "set (requires dep3) - {''A''} \<noteq> {}"
    unfolding req by auto
  have h5: "phase2_returns {''A''} None None ?ps"
    by (rule phase_returns_example)
  note gate = run_plugins_requirement_gate [OF h1 h2 h3, where av = "{''A''}"
      and w = empty_world and it = sorted_list_of_set]
  from gate h5 obtain rs w' where
    r: "run_plugins sorted_list_of_set ?ps {''A''} None None empty_world = (Inr rs, w')"
    by blast
  from gate [where rs = rs and w' = w'] r h4
  have "\<lparr>plugin_ref = oid dep3, severity = ERROR,
      kw_msg = Some (str_join '', '' (sorted_list_of_set (set (requires dep3) - {''A''}))
                     @ '' service(s) not running''),
      kw_exception = None\<rparr> \<in> set rs"
    by blast
  then have msg: "\<lparr>plugin_ref = oid dep3, severity = ERROR,
      kw_msg = Some ''B, C service(s) not running'', kw_exception = None\<rparr> \<in> set rs"
    by (simp add: req sorted_example)
  from gate h4 have never: "dep3 \<notin> set (drop (length (calls empty_world))
     (calls (snd (run_plugins sorted_list_of_set ?ps {''A''} None None empty_world))))"
    by blast
  have sp: "split_names [] ''B, C'' = [''B'', ''C'']" by simp
  from h1 h2 h3 h4 h5 iter_ok_sorted never r msg sp show ?thesis by blast
qed

subsection \<open>Phase 1: the available services\<close>

text \<open>
  C5: when phase 1 returns, its set of available services is exactly the set of the
  service names of the service probes that match the filter and whose \<^verbatim>\<open>run_plugin\<close>
  outcome has severity SUCCESS; and it does return, with that set, whenever no selected
  probe returns a Results or lets an exception escape. Phase 2 receives the set as an
  argument that it only reads (\<^verbatim>\<open>issubset\<close> and set difference) and returns nothing
  but its Results.
\<close>

theorem run_service_plugins_available:
  "(run_service_plugins ps s c w = (Inr (rs, av), w') \<longrightarrow>
      av = {n. \<exists>p\<in>set ps. service_name p = Some n \<and> source_or_check_matches p s c \<and>
                 (\<exists>r. fst (run_plugin p {} w) = Inr (IsResult r) \<and> severity r = SUCCESS)}) \<and>
   (phase1_returns s c ps \<longrightarrow>
      (\<exists>rs w'. run_service_plugins ps s c w = (Inr (rs, set (spec_available s c ps)), w'))) \<and>
   set (spec_available s c ps) =
     {n. \<exists>p\<in>set ps. service_name p = Some n \<and> source_or_check_matches p s c \<and>
           (\<exists>r. fst (run_plugin p {} w) = Inr (IsResult r) \<and> severity r = SUCCESS)}"
proof -
  have a: "run_service_plugins ps s c w = (Inr (rs, av), w') \<Longrightarrow> av = set (spec_available s c ps)"
  proof -
    assume r: "run_service_plugins ps s c w = (Inr (rs, av), w')"
    from run_service_plugins_ok [OF run_service_plugins_Inr [OF r], of w] r
    show ?thesis by simp
  qed
  have b: "phase1_returns s c ps \<Longrightarrow>
      \<exists>rs w'. run_service_plugins ps s c w = (Inr (rs, set (spec_available s c ps)), w')"
    by (simp add: run_service_plugins_ok)
  from a b spec_available_set [of s c ps w] show ?thesis by simp
qed

theorem run_service_plugins_available_witness:
  "phase1_returns None None [svc_a, svc_b, dep] \<and>
   (\<exists>rs w'. run_service_plugins [svc_a, svc_b, dep] None None empty_world = (Inr (rs, {''A''}), w'))"
proof -
  have h: "phase1_returns None None [svc_a, svc_b, dep]"
    by (rule phase_returns_example)
  from run_service_plugins_available [of "[svc_a, svc_b, dep]" None None empty_world] h
  have "\<exists>rs w'. run_service_plugins [svc_a, svc_b, dep] None None empty_world =
      (Inr (rs, set (spec_available None None [svc_a, svc_b, dep])), w')"
    by blast
  with h show ?thesis by (simp add: spec_available_example)
qed

text \<open>
  C8 does not hold. For a service probe whose \<^verbatim>\<open>check()\<close> returns a Results, line 79
  reads \<^verbatim>\<open>result.severity\<close> before lines 84-85 can extend the output: the
  AttributeError leaves \<^verbatim>\<open>run_service_plugins\<close> and the phase has no output. Phase 2
  (lines 114-117) handles a Results without reading its severity.
\<close>

theorem run_service_plugins_faults_on_Results:
  "run_service_plugins [svc_many] None None empty_world =
     (Inl attribute_error, empty_world\<lparr>calls := [svc_many]\<rparr>)"
  by (simp add: run_service_plugins_def run_plugin_def source_or_check_matches_def
      svc_many_def empty_world_def)

subsection \<open>Aggregation and render hand-off\<close>

text \<open>
  C4: in a run that executes the checks, the Results handed to the renderer are the
  Results of phase 1 followed by those of phase 2; each phase lists the outcomes of its
  selected plugins in the order of the plugin list, nothing is dropped, merged or sorted.
  Such a run reaches the renderer whenever both phases return, and then it ends with
  what \<^verbatim>\<open>render\<close> lets escape: normally, unless \<^verbatim>\<open>render\<close> raises outside
  \<^verbatim>\<open>Exception\<close>.
\<close>

theorem main_results_order:
  assumes "\<not> output_only out"
  shows "(phase1_returns s c ps \<longrightarrow> phase2_returns (set (spec_available s c ps)) s c ps \<longrightarrow>
            fst (main it ps s c out w) =
              render_escape out (Some (spec_phase1_results s c ps
                @ spec_phase2_results it (set (spec_available s c ps)) s c ps)) \<and>
            rendered (snd (main it ps s c out w)) =
              rendered w @ [Some (spec_phase1_results s c ps
                @ spec_phase2_results it (set (spec_available s c ps)) s c ps)]) \<and>
         (run_service_plugins ps s c w = (Inr (rs1, av), w1) \<longrightarrow>
          run_plugins it ps av s c w1 = (Inr rs2, w2) \<longrightarrow>
            rs1 = spec_phase1_results s c ps \<and>
            rs2 = spec_phase2_results it av s c ps \<and>
            fst (main it ps s c out w) = render_escape out (Some (rs1 @ rs2)) \<and>
            rendered (snd (main it ps s c out w)) = rendered w @ [Some (rs1 @ rs2)])"
proof -
  have a: "phase1_returns s c ps \<Longrightarrow> phase2_returns (set (spec_available s c ps)) s c ps \<Longrightarrow>
      fst (main it ps s c out w) =
        render_escape out (Some (spec_phase1_results s c ps
          @ spec_phase2_results it (set (spec_available s c ps)) s c ps)) \<and>
      rendered (snd (main it ps s c out w)) =
        rendered w @ [Some (spec_phase1_results s c ps
          @ spec_phase2_results it (set (spec_available s c ps)) s c ps)]"
    using main_checks_ok [OF assms, of s c ps it w]
    by (simp add: render_guarded_rendered render_guarded_escape)
  have b: "run_service_plugins ps s c w = (Inr (rs1, av), w1) \<Longrightarrow>
      run_plugins it ps av s c w1 = (Inr rs2, w2) \<Longrightarrow>
      rs1 = spec_phase1_results s c ps \<and>
      rs2 = spec_phase2_results it av s c ps \<and>
      fst (main it ps s c out w) = render_escape out (Some (rs1 @ rs2)) \<and>
      rendered (snd (main it ps s c out w)) = rendered w @ [Some (rs1 @ rs2)]"
  proof -
    assume r1: "run_service_plugins ps s c w = (Inr (rs1, av), w1)"
      and r2: "run_plugins it ps av s c w1 = (Inr rs2, w2)"
    have ok1: "phase1_returns s c ps"
      by (rule run_service_plugins_Inr [OF r1])
    from run_service_plugins_ok [OF ok1, of w] r1
    have e: "rs1 = spec_phase1_results s c ps" "av = set (spec_available s c ps)"
      by simp_all
    have ok2: "phase2_returns av s c ps"
      by (rule run_plugins_Inr [OF r2])
    from run_plugins_ok [OF ok2, of it w1] r2
    have e2: "rs2 = spec_phase2_results it av s c ps"
      by simp
    from a [OF ok1] ok2 e e2 show ?thesis
      by simp
  qed
  from a b show ?thesis by blast
qed

theorem main_results_order_witness:
  "\<not> output_only plain_renderer \<and>
   phase1_returns None None [svc_a, svc_b, dep] \<and>
   phase2_returns {''A''} None None [svc_a, svc_b, dep] \<and>
   fst (main sorted_list_of_set [svc_a, svc_b, dep] None None plain_renderer empty_world) = None \<and>
   rendered (snd (main sorted_list_of_set [svc_a, svc_b, dep] None None plain_renderer empty_world)) =
     [Some [\<lparr>plugin_ref = 1, severity = SUCCESS, kw_msg = None, kw_exception = None\<rparr>,
            \<lparr>plugin_ref = 2, severity = CRITICAL, kw_msg = None, kw_exception = None\<rparr>,
            \<lparr>plugin_ref = 3, severity = ERROR, kw_msg = Some ''B service(s) not running'',
              kw_exception = None\<rparr>]]"
proof -
  have h1: "\<not> output_only plain_renderer"
    by (simp add: plain_renderer_def)
  have h2: "phase1_returns None None [svc_a, svc_b, dep]"
    by (rule phase_returns_example)
  have h3: "phase2_returns {''A''} None None [svc_a, svc_b, dep]"
    by (rule phase_returns_example)
  then have h3': "phase2_returns (set (spec_available None None [svc_a, svc_b, dep])) None None
      [svc_a, svc_b, dep]"
    by (simp add: spec_available_example)
  from main_results_order [OF h1, of None None "[svc_a, svc_b, dep]" sorted_list_of_set
      empty_world] h2 h3'
  have "fst (main sorted_list_of_set [svc_a, svc_b, dep] None None plain_renderer empty_world) =
      render_escape plain_renderer (Some (spec_phase1_results None None [svc_a, svc_b, dep]
        @ spec_phase2_results sorted_list_of_set (set (spec_available None None [svc_a, svc_b, dep]))
            None None [svc_a, svc_b, dep])) \<and>
    rendered (snd (main sorted_list_of_set [svc_a, svc_b, dep] None None plain_renderer empty_world)) =
      rendered empty_world @ [Some (spec_phase1_results None None [svc_a, svc_b, dep]
        @ spec_phase2_results sorted_list_of_set (set (spec_available None None [svc_a, svc_b, dep]))
            None None [svc_a, svc_b, dep])]"
    by blast
  with h1 h2 h3 show ?thesis
    by (simp add: spec_available_example phase1_example phase2_example empty_world_def
        render_escape_def plain_renderer_def)
qed

text \<open>
  C7 does not hold on every run. With a renderer that is not output-only and a service
  probe that returns a Results, the AttributeError of line 79 leaves \<^verbatim>\<open>main\<close>
  (lines 182-185 are outside the \<^verbatim>\<open>try\<close>) and \<^verbatim>\<open>render\<close> is never called;
  \<open>main_checks_fault\<close> shows that no run in which phase 1 does not return reaches
  \<^verbatim>\<open>render\<close>. On the runs in which both phases return and on the output-only runs,
  \<open>main_output_only\<close>, \<open>main_checks_ok\<close> and the \<open>render_guarded\<close> lemmas show one
  call of \<^verbatim>\<open>render\<close>, and a fault of \<^verbatim>\<open>render\<close> that derives from
  \<^verbatim>\<open>Exception\<close> logged once while the run ends normally.
\<close>

theorem main_faults_before_render:
  "fst (main sorted_list_of_set [svc_many, dep] None None plain_renderer empty_world)
     = Some attribute_error \<and>
   rendered (snd (main sorted_list_of_set [svc_many, dep] None None plain_renderer empty_world)) = []"
  by (simp add: main_def run_service_plugins_def run_plugin_def source_or_check_matches_def
      svc_many_def empty_world_def plain_renderer_def)

end
